theory Spec2Isabelle
  imports Complex_Main "HOL-Library.Sublist"
begin

section \<open>The notebook \<open>nonlinear_poisson.ipynb\<close>\<close>

text \<open>
  The repository is one Jupyter notebook. Its own code is a handful of cells: the
  coefficient \<open>q\<close>, the symbolic derivation of the source term \<open>f\<close> with SymPy, the
  emission of the two C strings \<open>u_code\<close> and \<open>f_code\<close>, the boundary predicate, two
  calls of the FEniCS solver and the two error printers. Everything else is library code
  (SymPy, NumPy, FEniCS) that the notebook calls.

  The library calls are modelled as follows.
  \<^item> SymPy: expressions are trees over integers, symbols, \<open>\<pi>\<close>, sums, products and
    powers with a natural exponent (the polynomial fragment, which holds every expression
    the notebook builds). \<open>diff\<close> is symbolic differentiation by the sum, product and
    power/chain rules. SymPy keeps expressions in a canonical form; the model computes
    the canonical sum of monomials (\<open>canon\<close>) where SymPy's results are used:
    in \<open>simplify\<close> and in the C printer \<open>ccode\<close>. The text the printer emits follows
    SymPy's \<open>_print_Add\<close>, \<open>_print_Mul\<close> and \<open>_print_Pow\<close> of the C printer; the
    outputs recorded in the notebook (\<open>u = x[0] + 2*x[1] + 1\<close>,
    \<open>f = -10*x[0] - 20*x[1] - 10\<close>) are reproduced by the model.
    The printer is a model of SymPy on sums of monomials (\<open>sum_form\<close>), the form of
    both expressions the notebook emits; a product or power of sums is expanded by
    \<open>canon\<close>, whereas SymPy prints it as it is written, so every statement below about
    the text of an arbitrary expression is made for sums of monomials only. The order of
    the terms is the order by degree (\<open>as_ordered_terms\<close>) that gives the recorded
    outputs; SymPy's special cases of that order (for a sum of a number and one negated
    term, and for terms that differ only in a numeric factor such as a power of \<open>\<pi>\<close>)
    are not modelled. The statements below about arbitrary sums are therefore proved for
    every order of the terms.
  \<^item> NumPy: one-dimensional arrays are lists; subtraction broadcasts an array of
    length one and raises \<open>ValueError\<close> on any other length mismatch; \<open>np.max\<close> of an
    empty array raises \<open>ValueError\<close>.
  \<^item> FEniCS: meshes, function spaces and finite element functions are opaque; the
    library entry points the notebook calls are the fields of a record the model takes
    as a parameter.
\<close>

subsection \<open>Python's \<open>str\<close> of an integer\<close>

definition digit :: "nat \<Rightarrow> char" where
  "digit d = ''0123456789'' ! d"

fun str_nat :: "nat \<Rightarrow> string" where
  "str_nat n = (if n < 10 then [digit n] else str_nat (n div 10) @ [digit (n mod 10)])"

declare str_nat.simps [simp del]

definition str_int :: "int \<Rightarrow> string" where
  "str_int i = (if i < 0 then CHR ''-'' # str_nat (nat (- i)) else str_nat (nat i))"

subsection \<open>SymPy expressions\<close>

datatype symbol = Symbol string

fun name :: "symbol \<Rightarrow> string" where
  "name (Symbol s) = s"

datatype expr =
    Integer int
  | Var symbol
  | Pi
  | Add expr expr
  | Mul expr expr
  | Pow expr nat

text \<open>Python's unary and binary minus on SymPy expressions: \<open>-a\<close> is \<open>Mul(-1, a)\<close>
  and \<open>a - b\<close> is \<open>Add(a, Mul(-1, b))\<close>.\<close>

definition neg :: "expr \<Rightarrow> expr" where
  "neg a = Mul (Integer (- 1)) a"

definition sub :: "expr \<Rightarrow> expr \<Rightarrow> expr" where
  "sub a b = Add a (neg b)"

text \<open>\<open>sym.symbols\<close> splits its argument at commas and white space and makes one
  symbol of each piece, the piece being the symbol's name as it stands. (The range
  syntax with a colon is not modelled.)\<close>

fun split_names :: "string \<Rightarrow> string \<Rightarrow> string list" where
  "split_names acc [] = (if acc = [] then [] else [acc])"
| "split_names acc (c # cs) =
     (if c = CHR '','' \<or> c = CHR '' ''
      then (if acc = [] then split_names [] cs else acc # split_names [] cs)
      else split_names (acc @ [c]) cs)"

definition symbols :: "string \<Rightarrow> symbol list" where
  "symbols names = map Symbol (split_names [] names)"

text \<open>\<open>sym.diff(e, v)\<close> for a symbol \<open>v\<close>.\<close>

fun diff :: "expr \<Rightarrow> symbol \<Rightarrow> expr" where
  "diff (Integer i) v = Integer 0"
| "diff (Var s) v = (if s = v then Integer 1 else Integer 0)"
| "diff Pi v = Integer 0"
| "diff (Add a b) v = Add (diff a v) (diff b v)"
| "diff (Mul a b) v = Add (Mul (diff a v) b) (Mul a (diff b v))"
| "diff (Pow a k) v = Mul (Mul (Integer (int k)) (Pow a (k - 1))) (diff a v)"

text \<open>The number an expression denotes when its symbols are given real values.\<close>

fun eval_expr :: "(symbol \<Rightarrow> real) \<Rightarrow> expr \<Rightarrow> real" where
  "eval_expr env (Integer i) = of_int i"
| "eval_expr env (Var s) = env s"
| "eval_expr env Pi = pi"
| "eval_expr env (Add a b) = eval_expr env a + eval_expr env b"
| "eval_expr env (Mul a b) = eval_expr env a * eval_expr env b"
| "eval_expr env (Pow a k) = eval_expr env a ^ k"

subsection \<open>The canonical sum of monomials\<close>

text \<open>
  A monomial is a product of powers of atoms (\<open>\<pi>\<close> and the symbols), kept sorted: \<open>\<pi>\<close>
  first, then the symbols by name, as SymPy orders the factors of a product. A
  polynomial is a list of monomials with non-zero integer coefficients, kept in the
  order in which SymPy prints the terms of a sum.
\<close>

datatype atom = PiAtom | SymAtom symbol

type_synonym monom = "(atom \<times> nat) list"
type_synonym poly = "(monom \<times> int) list"

text \<open>Python's \<open><\<close> on strings: by code point, a proper prefix first.\<close>

fun str_less :: "string \<Rightarrow> string \<Rightarrow> bool" where
  "str_less [] [] = False"
| "str_less [] (b # bs) = True"
| "str_less (a # as) [] = False"
| "str_less (a # as) (b # bs) =
     ((of_char a :: nat) < of_char b \<or> (a = b \<and> str_less as bs))"

fun atom_less :: "atom \<Rightarrow> atom \<Rightarrow> bool" where
  "atom_less PiAtom PiAtom = False"
| "atom_less PiAtom (SymAtom t) = True"
| "atom_less (SymAtom s) PiAtom = False"
| "atom_less (SymAtom s) (SymAtom t) = str_less (name s) (name t)"

fun mono_mul :: "monom \<Rightarrow> monom \<Rightarrow> monom" where
  "mono_mul [] m = m"
| "mono_mul (p # ps) [] = p # ps"
| "mono_mul ((a, i) # ps) ((b, j) # qs) =
     (if a = b then (a, i + j) # mono_mul ps qs
      else if atom_less a b then (a, i) # mono_mul ps ((b, j) # qs)
      else (b, j) # mono_mul ((a, i) # ps) qs)"

text \<open>
  The order of the terms of a sum (\<open>as_ordered_terms\<close>): the exponents of the symbols,
  read as a vector over the sorted symbols, decide, the lexicographically greater
  vector first; so \<open>x[0]\<close> comes before \<open>x[1]\<close> and a constant comes last. A factor
  \<open>\<pi>\<close> counts as part of the numeric coefficient, not as a symbol: among terms with the
  same symbols the model puts the lower power of \<open>\<pi>\<close> first.
\<close>

fun sym_part :: "monom \<Rightarrow> monom" where
  "sym_part ((PiAtom, k) # m) = m"
| "sym_part m = m"

fun pi_exp :: "monom \<Rightarrow> nat" where
  "pi_exp ((PiAtom, k) # m) = k"
| "pi_exp m = 0"

fun lex_greater :: "monom \<Rightarrow> monom \<Rightarrow> bool" where
  "lex_greater [] m = False"
| "lex_greater (p # ps) [] = True"
| "lex_greater ((a, i) # ps) ((b, j) # qs) =
     (if a = b then j < i \<or> (i = j \<and> lex_greater ps qs) else atom_less a b)"

definition term_before :: "monom \<Rightarrow> monom \<Rightarrow> bool" where
  "term_before m m' =
     (lex_greater (sym_part m) (sym_part m') \<or>
      (sym_part m = sym_part m' \<and> pi_exp m < pi_exp m'))"

fun add_term :: "monom \<times> int \<Rightarrow> poly \<Rightarrow> poly" where
  "add_term (m, c) [] = (if c = 0 then [] else [(m, c)])"
| "add_term (m, c) ((m', c') # ps) =
     (if m = m' then (if c + c' = 0 then ps else (m, c + c') # ps)
      else if term_before m m' then (if c = 0 then (m', c') # ps else (m, c) # (m', c') # ps)
      else (m', c') # add_term (m, c) ps)"

definition padd :: "poly \<Rightarrow> poly \<Rightarrow> poly" where
  "padd p r = foldr add_term p r"

definition pscale :: "monom \<times> int \<Rightarrow> poly \<Rightarrow> poly" where
  "pscale t r = map (\<lambda>(m', c'). (mono_mul (fst t) m', snd t * c')) r"

definition pmul :: "poly \<Rightarrow> poly \<Rightarrow> poly" where
  "pmul p r = foldr (\<lambda>t acc. padd (pscale t r) acc) p []"

fun ppow :: "poly \<Rightarrow> nat \<Rightarrow> poly" where
  "ppow p 0 = [([], 1)]"
| "ppow p (Suc k) = pmul p (ppow p k)"

fun canon :: "expr \<Rightarrow> poly" where
  "canon (Integer i) = add_term ([], i) []"
| "canon (Var s) = [([(SymAtom s, 1)], 1)]"
| "canon Pi = [([(PiAtom, 1)], 1)]"
| "canon (Add a b) = padd (canon a) (canon b)"
| "canon (Mul a b) = pmul (canon a) (canon b)"
| "canon (Pow a k) = ppow (canon a) k"

text \<open>The number a canonical sum denotes.\<close>

fun atom_val :: "(symbol \<Rightarrow> real) \<Rightarrow> atom \<Rightarrow> real" where
  "atom_val env PiAtom = pi"
| "atom_val env (SymAtom s) = env s"

fun eval_monom :: "(symbol \<Rightarrow> real) \<Rightarrow> monom \<Rightarrow> real" where
  "eval_monom env [] = 1"
| "eval_monom env (p # ps) = atom_val env (fst p) ^ snd p * eval_monom env ps"

fun eval_poly :: "(symbol \<Rightarrow> real) \<Rightarrow> poly \<Rightarrow> real" where
  "eval_poly env [] = 0"
| "eval_poly env (t # ts) = of_int (snd t) * eval_monom env (fst t) + eval_poly env ts"

text \<open>The expression tree of a canonical sum: a left-nested sum of terms, each a
  coefficient times a left-nested product of powers.\<close>

fun atom_expr :: "atom \<Rightarrow> expr" where
  "atom_expr PiAtom = Pi"
| "atom_expr (SymAtom s) = Var s"

definition factor_expr :: "atom \<times> nat \<Rightarrow> expr" where
  "factor_expr p = (if snd p = 1 then atom_expr (fst p) else Pow (atom_expr (fst p)) (snd p))"

fun monom_expr :: "monom \<Rightarrow> expr" where
  "monom_expr [] = Integer 1"
| "monom_expr (p # ps) = foldl Mul (factor_expr p) (map factor_expr ps)"

definition term_expr :: "monom \<times> int \<Rightarrow> expr" where
  "term_expr t =
     (if fst t = [] then Integer (snd t)
      else if snd t = 1 then monom_expr (fst t)
      else Mul (Integer (snd t)) (monom_expr (fst t)))"

fun poly_expr :: "poly \<Rightarrow> expr" where
  "poly_expr [] = Integer 0"
| "poly_expr (t # ts) = foldl Add (term_expr t) (map term_expr ts)"

text \<open>\<open>sym.simplify\<close> on the polynomial fragment: the collected, expanded sum.\<close>

definition simplify :: "expr \<Rightarrow> expr" where
  "simplify e = poly_expr (canon e)"

subsection \<open>The C printer\<close>

text \<open>
  \<open>_print_Symbol\<close> of the code printers: a symbol is printed as its name; a name that
  is a reserved word of C gets the suffix \<open>_\<close> (the printer's default settings). The
  list is the one of the C99 printer.
\<close>

definition reserved_words :: "string list" where
  "reserved_words =
     [''auto'', ''if'', ''break'', ''int'', ''case'', ''long'', ''char'', ''register'',
      ''continue'', ''return'', ''default'', ''short'', ''do'', ''sizeof'', ''double'',
      ''static'', ''else'', ''struct'', ''entry'', ''switch'', ''extern'', ''typedef'',
      ''float'', ''union'', ''for'', ''unsigned'', ''goto'', ''while'', ''enum'', ''void'',
      ''const'', ''signed'', ''volatile'', ''inline'', ''restrict'']"

fun atom_name :: "atom \<Rightarrow> string" where
  "atom_name PiAtom = ''M_PI''"
| "atom_name (SymAtom s) = (if name s \<in> set reserved_words then name s @ ''_'' else name s)"

definition print_factor :: "atom \<times> nat \<Rightarrow> string" where
  "print_factor p =
     (if snd p = 1 then atom_name (fst p)
      else ''pow('' @ atom_name (fst p) @ '', '' @ str_nat (snd p) @ '')'')"

fun join :: "string \<Rightarrow> string list \<Rightarrow> string" where
  "join sep [] = []"
| "join sep [s] = s"
| "join sep (s # t # ts) = s @ sep @ join sep (t # ts)"

definition print_monom :: "monom \<Rightarrow> string" where
  "print_monom m = join ''*'' (map print_factor m)"

definition print_term :: "monom \<times> int \<Rightarrow> string" where
  "print_term t =
     (if fst t = [] then str_int (snd t)
      else if snd t = 1 then print_monom (fst t)
      else if snd t = - 1 then CHR ''-'' # print_monom (fst t)
      else str_int (snd t) @ ''*'' @ print_monom (fst t))"

text \<open>
  \<open>_print_Add\<close>: each term is printed; a leading minus sign is taken off the term's text
  and becomes the sign in front of it; the signs and texts are joined by blanks, the
  first sign being dropped when it is a plus and attached when it is a minus.
\<close>

definition stripped :: "string \<Rightarrow> string" where
  "stripped t = (if t \<noteq> [] \<and> hd t = CHR ''-'' then tl t else t)"

definition signed :: "string \<Rightarrow> string list" where
  "signed t = [if t \<noteq> [] \<and> hd t = CHR ''-'' then ''-'' else ''+'', stripped t]"

definition print_Add :: "poly \<Rightarrow> string" where
  "print_Add ts =
     (let l = concat (map (\<lambda>t. signed (print_term t)) ts)
      in (if hd l = ''+'' then [] else hd l) @ join '' '' (tl l))"

fun cprint :: "poly \<Rightarrow> string" where
  "cprint [] = ''0''"
| "cprint [t] = print_term t"
| "cprint ts = print_Add ts"

definition ccode :: "expr \<Rightarrow> string" where
  "ccode e = cprint (canon e)"

text \<open>
  A sum of monomials: a sum whose terms are products of integers, of \<open>\<pi>\<close>, of symbols
  and of their natural powers, with no sum inside a product or a power. On such an
  expression SymPy's automatic evaluation does what \<open>canon\<close> does (it multiplies out the
  numbers, adds up the exponents of equal factors and collects equal terms), so the
  canonical sum is the expression SymPy holds and prints. Both expressions the notebook
  emits have this form.
\<close>

fun monomial_form :: "expr \<Rightarrow> bool" where
  "monomial_form (Integer i) = True"
| "monomial_form (Var s) = True"
| "monomial_form Pi = True"
| "monomial_form (Add a b) = False"
| "monomial_form (Mul a b) = (monomial_form a \<and> monomial_form b)"
| "monomial_form (Pow a k) = monomial_form a"

fun sum_form :: "expr \<Rightarrow> bool" where
  "sum_form (Add a b) = (sum_form a \<and> sum_form b)"
| "sum_form e = monomial_form e"

text \<open>The atoms of a canonical sum, and the symbols that are left in the collected sum
  of an expression.\<close>

definition poly_atoms :: "poly \<Rightarrow> atom list" where
  "poly_atoms p = concat (map (\<lambda>t. map fst (fst t)) p)"

definition collected_symbols :: "expr \<Rightarrow> symbol list" where
  "collected_symbols e =
     concat (map (\<lambda>a. case a of PiAtom \<Rightarrow> [] | SymAtom s \<Rightarrow> [s]) (poly_atoms (canon e)))"


text \<open>A bare name: an identifier, that is a letter or an underscore followed by
  letters, digits and underscores, such as \<open>x\<close> or \<open>y\<close>.\<close>

definition first_chars :: "char set" where
  "first_chars = set ''abcdefghijklmnopqrstuvwxyzABCDEFGHIJKLMNOPQRSTUVWXYZ_''"

definition ident_chars :: "char set" where
  "ident_chars = set ''abcdefghijklmnopqrstuvwxyzABCDEFGHIJKLMNOPQRSTUVWXYZ0123456789_''"

definition bare_name :: "string \<Rightarrow> bool" where
  "bare_name n = (n \<noteq> [] \<and> hd n \<in> first_chars \<and> set n \<subseteq> ident_chars)"

subsection \<open>The syntax of Expression strings\<close>

text \<open>
  Modelled from the spec: the evaluator of FEniCS \<open>Expression\<close> strings is not in the
  repository. Section 6 of the specification gives the syntax it accepts: infix
  operators, function names such as \<open>pow\<close>, and coordinates written as the indexed
  accesses \<open>x[0]\<close>, \<open>x[1]\<close>. The notebook's text says the same (to be valid the
  expressions must use \<open>x[0]\<close> and \<open>x[1]\<close>; \<open>\<pi>\<close> is written \<open>pi\<close>, not \<open>M_PI\<close>).
  The model looks at the words of a string only, a word being a longest run of
  letters, digits, underscores and brackets, taken with the opening parenthesis when
  one follows it directly. A string is accepted when each of its words is a number, a
  coordinate access, the function \<open>pow(\<close> or one of the names the evaluator knows by
  itself; these names are a parameter.
\<close>

definition word_chars :: "char set" where
  "word_chars = ident_chars \<union> {CHR ''['', CHR '']''}"

fun words_acc :: "string \<Rightarrow> string \<Rightarrow> string list" where
  "words_acc acc [] = (if acc = [] then [] else [acc])"
| "words_acc acc (c # cs) =
     (if c \<in> word_chars then words_acc (acc @ [c]) cs
      else if acc = [] then words_acc [] cs
      else if c = CHR ''('' then (acc @ ''('') # words_acc [] cs
      else acc # words_acc [] cs)"

definition is_number :: "string \<Rightarrow> bool" where
  "is_number w = (w \<noteq> [] \<and> set w \<subseteq> set ''0123456789'')"

definition expression_accepts :: "string list \<Rightarrow> string \<Rightarrow> bool" where
  "expression_accepts known text =
     list_all (\<lambda>w. is_number w \<or> w \<in> set [''x[0]'', ''x[1]'', ''pow(''] \<or> w \<in> set known)
       (words_acc [] text)"

text \<open>
  A name stands as a word of its own in a text: what precedes it does not end in a word
  character, and what follows it starts neither with a word character nor with an
  opening parenthesis.
\<close>

definition delimited :: "string \<Rightarrow> string \<Rightarrow> bool" where
  "delimited n t =
     (\<exists>ps ss. t = ps @ n @ ss \<and>
        (ps = [] \<or> last ps \<notin> word_chars) \<and>
        (ss = [] \<or> hd ss \<notin> insert (CHR ''('') word_chars))"

subsection \<open>The symbolic cells\<close>

text \<open>
  \<^verbatim>\<open>def q(u): return 1 + u**2\<close>
\<close>

definition q :: "expr \<Rightarrow> expr" where
  "q u = Add (Integer 1) (Pow u 2)"

text \<open>
  \<^verbatim>\<open>x, y = sym.symbols('x[0], x[1]')\<close>,
  \<^verbatim>\<open>u = 1 + x + 2*y\<close>,
  \<^verbatim>\<open>f = - sym.diff(q(u)*sym.diff(u, x), x) - sym.diff(q(u)*sym.diff(u, y), y)\<close>,
  \<^verbatim>\<open>f = sym.simplify(f)\<close>.
  The notebook later binds \<open>u\<close> and \<open>f\<close> anew (to the finite element function and to the
  source expression), so the symbolic ones carry the suffix \<open>_sym\<close> here.
\<close>

definition x_sym :: symbol where
  "x_sym = symbols ''x[0], x[1]'' ! 0"

definition y_sym :: symbol where
  "y_sym = symbols ''x[0], x[1]'' ! 1"

definition u_sym :: expr where
  "u_sym = Add (Add (Integer 1) (Var x_sym)) (Mul (Integer 2) (Var y_sym))"

definition f_derived :: expr where
  "f_derived =
     sub (neg (diff (Mul (q u_sym) (diff u_sym x_sym)) x_sym))
         (diff (Mul (q u_sym) (diff u_sym y_sym)) y_sym)"

definition f_sym :: expr where
  "f_sym = simplify f_derived"

text \<open>
  \<^verbatim>\<open>u_code = sym.printing.ccode(u)\<close>,
  \<^verbatim>\<open>f_code = sym.printing.ccode(f)\<close>.
\<close>

definition u_code :: string where
  "u_code = ccode u_sym"

definition f_code :: string where
  "f_code = ccode f_sym"

text \<open>
  The point \<open>(a, b)\<close> as values of the two coordinate symbols, and the value of the
  coefficient \<open>q\<close> at a real number.
\<close>

definition at_point :: "real \<Rightarrow> real \<Rightarrow> symbol \<Rightarrow> real" where
  "at_point a b s = (if s = x_sym then a else if s = y_sym then b else 0)"

definition q_at :: "real \<Rightarrow> real" where
  "q_at r = eval_expr (\<lambda>s. r) (q (Var (Symbol ''u'')))"

subsection \<open>NumPy on one-dimensional arrays\<close>

datatype py_error = ValueError | IndexError | RuntimeError

text \<open>
  \<open>a - b\<close>: elementwise on equal lengths; an array of length one is broadcast against
  the other; every other pair of lengths raises \<open>ValueError\<close> (operands could not be
  broadcast together).
\<close>

definition np_subtract :: "'a::minus list \<Rightarrow> 'a list \<Rightarrow> py_error + 'a list" where
  "np_subtract a b =
     (if length a = length b then Inr (map (\<lambda>(x, y). x - y) (zip a b))
      else if length a = 1 then Inr (map (\<lambda>y. hd a - y) b)
      else if length b = 1 then Inr (map (\<lambda>x. x - hd b) a)
      else Inl ValueError)"

text \<open>\<open>np.max\<close>: the largest element; \<open>ValueError\<close> on an empty array. (The elements are
  taken from a linear order; a floating-point NaN is outside the model.)\<close>

fun np_max :: "'a::linorder list \<Rightarrow> py_error + 'a" where
  "np_max [] = Inl ValueError"
| "np_max (x # xs) = Inr (fold max xs x)"

subsection \<open>The FEniCS interface\<close>

text \<open>\<^verbatim>\<open>Expression(code, degree=k)\<close>\<close>

record expression =
  cppcode :: string
  degree :: nat

text \<open>
  The UFL form language, as far as the notebook writes it. \<open>Unknown\<close> stands for the
  finite element function \<open>u\<close> (the form refers to the object that \<open>solve\<close> updates) and
  \<open>TestFn\<close> for the test function \<open>v\<close>.
\<close>

datatype ufl =
    UInt int
  | Unknown
  | TestFn
  | Coef expression
  | UAdd ufl ufl
  | USub ufl ufl
  | UMul ufl ufl
  | UPow ufl nat
  | Grad ufl
  | Dot ufl ufl
  | Dx

text \<open>\<^verbatim>\<open>DirichletBC(V, u_D, boundary)\<close>\<close>

record ('space, 'a) dirichlet_bc =
  bc_space :: 'space
  bc_value :: expression
  bc_sub_domain :: "'a \<times> 'a \<Rightarrow> bool \<Rightarrow> bool"

text \<open>The \<open>solver_parameters\<close> dictionary: a dictionary of dictionaries of numbers.\<close>

type_synonym parameters = "(string \<times> (string \<times> real) list) list"

text \<open>
  The library entry points the notebook calls. \<open>coordinates\<close> is
  \<open>V.mesh().coordinates()\<close>; \<open>solve\<close> takes the form, the current value of the unknown,
  the boundary condition and the solver parameters, and returns the new value of the
  unknown or raises \<open>RuntimeError\<close> (no convergence).
\<close>

record ('mesh, 'space, 'fn, 'a) fenics =
  UnitSquareMesh :: "nat \<Rightarrow> nat \<Rightarrow> 'mesh"
  FunctionSpace :: "'mesh \<Rightarrow> string \<Rightarrow> nat \<Rightarrow> 'space"
  Function :: "'space \<Rightarrow> 'fn"
  interpolate :: "expression \<Rightarrow> 'space \<Rightarrow> 'fn"
  compute_vertex_values :: "'fn \<Rightarrow> 'a list"
  coordinates :: "'space \<Rightarrow> ('a \<times> 'a) list"
  solve :: "ufl \<Rightarrow> 'fn \<Rightarrow> ('space, 'a) dirichlet_bc \<Rightarrow> parameters \<Rightarrow> py_error + 'fn"

subsection \<open>The notebook's variables and output\<close>

text \<open>
  What a cell shows: a printed line of text, the line \<open>Max error is:\<close> with its number,
  a line of the vertex table (index, the two coordinates, the error), the plot of a
  mesh. The text of a floating-point number is not modelled; the number itself is kept.
\<close>

datatype ('mesh, 'a) display =
    Line string
  | MaxErrorLine 'a
  | VertexErrorLine nat 'a 'a 'a
  | MeshPlot 'mesh

text \<open>The global variables of the kernel (with the suffix \<open>_var\<close> where the plain name
  would capture a variable of a statement) and the output shown so far.\<close>

record ('mesh, 'space, 'fn, 'a) globals =
  n_var :: int
  mesh_var :: 'mesh
  V_var :: 'space
  u_var :: 'fn
  v_var :: ufl
  u_D :: expression
  f_var :: expression
  bc :: "('space, 'a) dirichlet_bc"
  F_var :: ufl
  stdout :: "('mesh, 'a) display list"

definition py_print ::
  "('mesh, 'a) display \<Rightarrow> ('mesh, 'space, 'fn, 'a) globals \<Rightarrow> ('mesh, 'space, 'fn, 'a) globals" where
  "py_print out g = g\<lparr>stdout := stdout g @ [out]\<rparr>"

text \<open>An exception ends the cell and the run: the next step runs on a returned state
  only.\<close>

definition and_then :: "'e + 'g \<Rightarrow> ('g \<Rightarrow> 'e + 'h) \<Rightarrow> 'e + 'h" where
  "and_then r k = (case r of Inl e \<Rightarrow> Inl e | Inr g \<Rightarrow> k g)"

subsection \<open>The boundary predicate\<close>

text \<open>
  \<^verbatim>\<open>def boundary(x, on_boundary): return on_boundary\<close>
\<close>

definition boundary :: "'p \<Rightarrow> bool \<Rightarrow> bool" where
  "boundary x on_boundary = on_boundary"

subsection \<open>The error printers\<close>

text \<open>
  \<^verbatim>\<open>
  def print_max_error():
      u_e = interpolate(u_D, V)
      u0_at_vertices = u_e.compute_vertex_values()
      u_at_vertices = u.compute_vertex_values()
      coor = V.mesh().coordinates()
      print('Max error is: ', np.max(u0_at_vertices - u_at_vertices))
  \<close>
\<close>

definition print_max_error ::
  "('mesh, 'space, 'fn, 'a::{minus,linorder}) fenics \<Rightarrow> ('mesh, 'space, 'fn, 'a) globals
     \<Rightarrow> py_error + ('mesh, 'space, 'fn, 'a) globals" where
  "print_max_error ext g =
     (let u_e = interpolate ext (u_D g) (V_var g);
          u0_at_vertices = compute_vertex_values ext u_e;
          u_at_vertices = compute_vertex_values ext (u_var g);
          coor = coordinates ext (V_var g)
      in and_then (np_subtract u0_at_vertices u_at_vertices) (\<lambda>d.
         and_then (np_max d) (\<lambda>m.
         Inr (py_print (MaxErrorLine m) g))))"

text \<open>
  \<^verbatim>\<open>
  def print_errors():
      u_e = interpolate(u_D, V)
      u0_at_vertices = u_e.compute_vertex_values()
      u_at_vertices = u.compute_vertex_values()
      coor = V.mesh().coordinates()
      for i, x in enumerate(coor):
          print('vertex %2d (%9g,%9g): error=%g' %
                (i, x[0], x[1], u0_at_vertices[i] - u_at_vertices[i]))
  \<close>
  Reading an array at an index past its end raises \<open>IndexError\<close>.
\<close>

fun print_errors_loop ::
  "nat \<Rightarrow> ('a \<times> 'a) list \<Rightarrow> 'a::minus list \<Rightarrow> 'a list \<Rightarrow> ('mesh, 'space, 'fn, 'a) globals
     \<Rightarrow> py_error + ('mesh, 'space, 'fn, 'a) globals" where
  "print_errors_loop i [] u0 u1 g = Inr g"
| "print_errors_loop i (x # xs) u0 u1 g =
     (if i < length u0 \<and> i < length u1
      then print_errors_loop (Suc i) xs u0 u1
             (py_print (VertexErrorLine i (fst x) (snd x) (u0 ! i - u1 ! i)) g)
      else Inl IndexError)"

definition print_errors ::
  "('mesh, 'space, 'fn, 'a::minus) fenics \<Rightarrow> ('mesh, 'space, 'fn, 'a) globals
     \<Rightarrow> py_error + ('mesh, 'space, 'fn, 'a) globals" where
  "print_errors ext g =
     (let u_e = interpolate ext (u_D g) (V_var g);
          u0_at_vertices = compute_vertex_values ext u_e;
          u_at_vertices = compute_vertex_values ext (u_var g);
          coor = coordinates ext (V_var g)
      in print_errors_loop 0 coor u0_at_vertices u_at_vertices g)"

subsection \<open>The cells in order\<close>

text \<open>
  \<^verbatim>\<open>print('u =', u_code)\<close>, \<^verbatim>\<open>print('f =', f_code)\<close>;
  \<^verbatim>\<open>u_D = Expression(u_code, degree=1)\<close>;
  \<^verbatim>\<open>f = Expression(f_code, degree=1)\<close>.
\<close>

definition cell_emit ::
  "('mesh, 'space, 'fn, 'a) globals \<Rightarrow> ('mesh, 'space, 'fn, 'a) globals" where
  "cell_emit g =
     (let g = py_print (Line (''u = '' @ u_code)) g;
          g = py_print (Line (''f = '' @ f_code)) g;
          g = g\<lparr>u_D := \<lparr>cppcode = u_code, degree = 1\<rparr>\<rparr>;
          g = g\<lparr>f_var := \<lparr>cppcode = f_code, degree = 1\<rparr>\<rparr>
      in g)"

text \<open>
  \<^verbatim>\<open>
  n = 16
  mesh = UnitSquareMesh(8, 8)
  plot(mesh)
  V = FunctionSpace(mesh, 'P', 1)
  u = Function(V)
  v = TestFunction(V)
  \<close>
  The value assigned to \<open>n\<close> is a parameter of the model; the notebook assigns 16.
\<close>

definition cell_mesh ::
  "('mesh, 'space, 'fn, 'a) fenics \<Rightarrow> int \<Rightarrow> ('mesh, 'space, 'fn, 'a) globals
     \<Rightarrow> ('mesh, 'space, 'fn, 'a) globals" where
  "cell_mesh ext n g =
     (let g = g\<lparr>n_var := n\<rparr>;
          g = g\<lparr>mesh_var := UnitSquareMesh ext 8 8\<rparr>;
          g = py_print (MeshPlot (mesh_var g)) g;
          g = g\<lparr>V_var := FunctionSpace ext (mesh_var g) ''P'' 1\<rparr>;
          g = g\<lparr>u_var := Function ext (V_var g)\<rparr>;
          g = g\<lparr>v_var := TestFn\<rparr>
      in g)"

text \<open>
  \<^verbatim>\<open>
  u_D = Expression(u_code, degree=1)
  bc = DirichletBC(V, u_D, boundary)
  \<close>
\<close>

definition cell_bc ::
  "('mesh, 'space, 'fn, 'a) globals \<Rightarrow> ('mesh, 'space, 'fn, 'a) globals" where
  "cell_bc g =
     (let g = g\<lparr>u_D := \<lparr>cppcode = u_code, degree = 1\<rparr>\<rparr>;
          g = g\<lparr>bc := \<lparr>bc_space = V_var g, bc_value = u_D g, bc_sub_domain = boundary\<rparr>\<rparr>
      in g)"

text \<open>
  \<^verbatim>\<open>
  f = Expression(f_code, degree=1)
  F = q(u)*dot(grad(u), grad(v))*dx - f*v*dx
  solve(F == 0, u, bc)
  \<close>
  Here \<open>q\<close> is applied to the finite element function: the same Python body, on UFL.
\<close>

definition q_ufl :: "ufl \<Rightarrow> ufl" where
  "q_ufl u = UAdd (UInt 1) (UPow u 2)"

definition cell_solve ::
  "('mesh, 'space, 'fn, 'a) fenics \<Rightarrow> ('mesh, 'space, 'fn, 'a) globals
     \<Rightarrow> py_error + ('mesh, 'space, 'fn, 'a) globals" where
  "cell_solve ext g =
     (let g = g\<lparr>f_var := \<lparr>cppcode = f_code, degree = 1\<rparr>\<rparr>;
          g = g\<lparr>F_var := USub (UMul (UMul (q_ufl Unknown) (Dot (Grad Unknown) (Grad (v_var g)))) Dx)
                              (UMul (UMul (Coef (f_var g)) (v_var g)) Dx)\<rparr>
      in and_then (solve ext (F_var g) (u_var g) (bc g) []) (\<lambda>u'.
         Inr (g\<lparr>u_var := u'\<rparr>)))"

text \<open>
  \<^verbatim>\<open>
  solve(F == 0, u, bc,
        solver_parameters={"newton_solver":{"relative_tolerance":1e-6}})
  print_max_error()
  \<close>
\<close>

definition cell_solve_tol ::
  "('mesh, 'space, 'fn, 'a::{minus,linorder}) fenics \<Rightarrow> ('mesh, 'space, 'fn, 'a) globals
     \<Rightarrow> py_error + ('mesh, 'space, 'fn, 'a) globals" where
  "cell_solve_tol ext g =
     and_then (solve ext (F_var g) (u_var g) (bc g)
                 [(''newton_solver'', [(''relative_tolerance'', 1 / 10 ^ 6)])]) (\<lambda>u'.
     print_max_error ext (g\<lparr>u_var := u'\<rparr>))"

text \<open>The whole notebook, run from the top on the state \<open>g\<close> of the kernel, with the
  value \<open>n\<close> assigned in the mesh cell.\<close>

definition run_all ::
  "('mesh, 'space, 'fn, 'a::{minus,linorder}) fenics \<Rightarrow> int \<Rightarrow> ('mesh, 'space, 'fn, 'a) globals
     \<Rightarrow> py_error + ('mesh, 'space, 'fn, 'a) globals" where
  "run_all ext n g =
     and_then (cell_solve ext (cell_bc (cell_mesh ext n (cell_emit g)))) (\<lambda>g.
     and_then (print_max_error ext g) (\<lambda>g.
     cell_solve_tol ext g))"

definition notebook ::
  "('mesh, 'space, 'fn, 'a::{minus,linorder}) fenics \<Rightarrow> ('mesh, 'space, 'fn, 'a) globals
     \<Rightarrow> py_error + ('mesh, 'space, 'fn, 'a) globals" where
  "notebook ext g = run_all ext 16 g"

subsection \<open>A small instance of the interface\<close>

text \<open>
  A mesh of three vertices, in which a finite element function is the list of its vertex
  values; the interpolant of any expression has the given vertex values and \<open>solve\<close>
  returns its starting value. The kernel state holds the given vertex values as \<open>u\<close>.
  The theorems below are applied to this instance at concrete numbers.
\<close>

definition sample_fenics :: "real list \<Rightarrow> (unit, unit, real list, real) fenics" where
  "sample_fenics exact =
     \<lparr>UnitSquareMesh = \<lambda>nx ny. (),
      FunctionSpace = \<lambda>mesh family k. (),
      Function = \<lambda>V. [0, 0, 0],
      interpolate = \<lambda>e V. exact,
      compute_vertex_values = \<lambda>w. w,
      coordinates = \<lambda>V. [(0, 0), (1, 0), (0, 1)],
      solve = \<lambda>form w b p. Inr w\<rparr>"

definition sample_globals :: "real list \<Rightarrow> (unit, unit, real list, real) globals" where
  "sample_globals computed =
     \<lparr>n_var = 16, mesh_var = (), V_var = (), u_var = computed, v_var = TestFn,
      u_D = \<lparr>cppcode = u_code, degree = 1\<rparr>,
      f_var = \<lparr>cppcode = f_code, degree = 1\<rparr>,
      bc = \<lparr>bc_space = (), bc_value = \<lparr>cppcode = u_code, degree = 1\<rparr>,
            bc_sub_domain = boundary\<rparr>,
      F_var = UInt 0, stdout = []\<rparr>"

section \<open>Properties\<close>

subsection \<open>The symbolic operations keep the value\<close>

text \<open>The canonical sum of an expression, and the simplified expression, denote the same
  number as the expression, whatever the values of the symbols.\<close>

lemma eval_mono_mul: "eval_monom env (mono_mul m m') = eval_monom env m * eval_monom env m'"
  by (induction m m' rule: mono_mul.induct) (simp_all add: power_add)

lemma eval_add_term:
  "eval_poly env (add_term t p) = of_int (snd t) * eval_monom env (fst t) + eval_poly env p"
proof (induction t p rule: add_term.induct)
  case (1 m c)
  then show ?case by simp
next
  case (2 m c m' c' ps)
  have z: "real_of_int c * X + real_of_int c' * X = 0" if "c + c' = 0" for X
  proof -
    have "real_of_int c * X + real_of_int c' * X = real_of_int (c + c') * X"
      by (simp add: algebra_simps)
    with that show ?thesis by simp
  qed
  show ?case
  proof (cases "m = m'")
    case True
    note same = this
    show ?thesis
    proof (cases "c + c' = 0")
      case True
      from z[OF True, of "eval_monom env m'"] same True show ?thesis by simp
    next
      case False
      have "real_of_int (c + c') * eval_monom env m' =
              real_of_int c * eval_monom env m' + real_of_int c' * eval_monom env m'"
        by (simp add: algebra_simps)
      with same False show ?thesis by simp
    qed
  next
    case False
    with 2 show ?thesis by simp
  qed
qed

lemma eval_padd: "eval_poly env (padd p r) = eval_poly env p + eval_poly env r"
  by (induction p) (simp_all add: padd_def eval_add_term)

lemma eval_pscale:
  "eval_poly env (pscale t r) = of_int (snd t) * eval_monom env (fst t) * eval_poly env r"
  by (induction r) (simp_all add: pscale_def eval_mono_mul algebra_simps split: prod.splits)

lemma eval_pmul: "eval_poly env (pmul p r) = eval_poly env p * eval_poly env r"
  by (induction p) (simp_all add: pmul_def eval_padd eval_pscale algebra_simps)

lemma eval_ppow: "eval_poly env (ppow p k) = eval_poly env p ^ k"
  by (induction k) (simp_all add: eval_pmul)

lemma eval_canon: "eval_poly env (canon e) = eval_expr env e"
  by (induction e) (simp_all add: eval_add_term eval_padd eval_pmul eval_ppow)

lemma eval_atom_expr: "eval_expr env (atom_expr a) = atom_val env a"
  by (cases a) simp_all

lemma eval_factor_expr: "eval_expr env (factor_expr p) = atom_val env (fst p) ^ snd p"
  by (simp add: factor_expr_def eval_atom_expr)

lemma eval_foldl_Mul:
  "eval_expr env (foldl Mul a (map factor_expr ps)) = eval_expr env a * eval_monom env ps"
  by (induction ps arbitrary: a) (simp_all add: eval_factor_expr algebra_simps)

lemma eval_monom_expr: "eval_expr env (monom_expr m) = eval_monom env m"
  by (cases m) (simp_all add: eval_foldl_Mul eval_factor_expr)

lemma eval_term_expr:
  "eval_expr env (term_expr t) = of_int (snd t) * eval_monom env (fst t)"
  by (simp add: term_expr_def eval_monom_expr)

lemma eval_foldl_Add:
  "eval_expr env (foldl Add a (map term_expr ts)) = eval_expr env a + eval_poly env ts"
  by (induction ts arbitrary: a) (simp_all add: eval_term_expr algebra_simps)

lemma eval_poly_expr: "eval_expr env (poly_expr p) = eval_poly env p"
  by (cases p) (simp_all add: eval_foldl_Add eval_term_expr)

lemma eval_simplify: "eval_expr env (simplify e) = eval_expr env e"
  by (simp add: simplify_def eval_poly_expr eval_canon)

text \<open>\<open>diff\<close> computes the derivative: the value of \<open>diff e v\<close> is the derivative of
  the value of \<open>e\<close> as a function of the value of \<open>v\<close>.\<close>

lemma diff_derivative:
  "((\<lambda>r. eval_expr (env(v := r)) e) has_real_derivative eval_expr (env(v := a)) (diff e v)) (at a)"
proof (induction e)
  case (Pow e k)
  from DERIV_power[OF Pow, of k] show ?case
    by (simp add: algebra_simps)
qed (auto intro!: derivative_eq_intros)

text \<open>
  Whatever expression of the fragment is taken as exact solution \<open>u\<close>, the source term
  derived from it as in the notebook satisfies the equation in strong form at every
  point.
\<close>

lemma derived_source_term_general:
  fixes u :: expr and env :: "symbol \<Rightarrow> real"
  defines "f \<equiv> simplify (sub (neg (diff (Mul (q u) (diff u x_sym)) x_sym))
                               (diff (Mul (q u) (diff u y_sym)) y_sym))"
  shows "\<exists>dx dy.
     ((\<lambda>s. eval_expr (env(x_sym := s)) (Mul (q u) (diff u x_sym))) has_real_derivative dx)
       (at (env x_sym)) \<and>
     ((\<lambda>t. eval_expr (env(y_sym := t)) (Mul (q u) (diff u y_sym))) has_real_derivative dy)
       (at (env y_sym)) \<and>
     - dx - dy = eval_expr env f"
proof -
  have "((\<lambda>s. eval_expr (env(x_sym := s)) (Mul (q u) (diff u x_sym))) has_real_derivative
           eval_expr (env(x_sym := env x_sym)) (diff (Mul (q u) (diff u x_sym)) x_sym))
          (at (env x_sym))"
    by (rule diff_derivative)
  moreover have "((\<lambda>t. eval_expr (env(y_sym := t)) (Mul (q u) (diff u y_sym))) has_real_derivative
           eval_expr (env(y_sym := env y_sym)) (diff (Mul (q u) (diff u y_sym)) y_sym))
          (at (env y_sym))"
    by (rule diff_derivative)
  moreover have "- eval_expr (env(x_sym := env x_sym)) (diff (Mul (q u) (diff u x_sym)) x_sym)
                 - eval_expr (env(y_sym := env y_sym)) (diff (Mul (q u) (diff u y_sym)) y_sym)
                 = eval_expr env f"
    unfolding f_def eval_simplify by (simp add: sub_def neg_def)
  ultimately show ?thesis by blast
qed

subsection \<open>The derived source term\<close>

lemma symbols_xy: "symbols ''x[0], x[1]'' = [Symbol ''x[0]'', Symbol ''x[1]'']"
  by (simp add: symbols_def)

lemma x_sym_eq: "x_sym = Symbol ''x[0]''"
  by (simp add: x_sym_def symbols_xy)

lemma y_sym_eq: "y_sym = Symbol ''x[1]''"
  by (simp add: y_sym_def symbols_xy)

lemma f_sym_eq:
  "f_sym = Add (Add (Mul (Integer (- 10)) (Var x_sym)) (Mul (Integer (- 20)) (Var y_sym)))
               (Integer (- 10))"
  by code_simp

text \<open>The emitted boundary value is the text recorded in the notebook.\<close>

lemma u_code_eq: "u_code = ''x[0] + 2*x[1] + 1''"
  by code_simp

lemma u_at: "eval_expr (at_point a b) u_sym = 1 + a + 2 * b"
  by (simp add: u_sym_def at_point_def x_sym_eq y_sym_eq)

lemma f_at: "eval_expr (at_point a b) f_sym = - 10 * a - 20 * b - 10"
  by (simp add: f_sym_eq at_point_def x_sym_eq y_sym_eq)

lemma q_at_eq: "q_at r = 1 + r\<^sup>2"
  by (simp add: q_at_def q_def)

lemma u_dx: "((\<lambda>s. eval_expr (at_point s b) u_sym) has_real_derivative 1) (at a)"
  unfolding u_at by (auto intro!: derivative_eq_intros)

lemma u_dy: "((\<lambda>t. eval_expr (at_point a t) u_sym) has_real_derivative 2) (at b)"
  unfolding u_at by (auto intro!: derivative_eq_intros)

lemma flux_divergence:
  "\<exists>dx dy.
     ((\<lambda>s. q_at (eval_expr (at_point s b) u_sym) * 1) has_real_derivative dx) (at a) \<and>
     ((\<lambda>t. q_at (eval_expr (at_point a t) u_sym) * 2) has_real_derivative dy) (at b) \<and>
     - dx - dy = eval_expr (at_point a b) f_sym"
proof -
  have dx: "((\<lambda>s. q_at (eval_expr (at_point s b) u_sym) * 1) has_real_derivative
              2 * (1 + a + 2 * b)) (at a)"
    unfolding u_at q_at_eq by (auto intro!: derivative_eq_intros)
  have dy: "((\<lambda>t. q_at (eval_expr (at_point a t) u_sym) * 2) has_real_derivative
              8 * (1 + a + 2 * b)) (at b)"
    unfolding u_at q_at_eq by (auto intro!: derivative_eq_intros)
  have "- (2 * (1 + a + 2 * b)) - 8 * (1 + a + 2 * b) = eval_expr (at_point a b) f_sym"
    unfolding f_at by simp
  with dx dy show ?thesis by blast
qed

text \<open>
  Claim C1: for \<open>u = 1 + x + 2y\<close> and \<open>q(u) = 1 + u\<^sup>2\<close> the derived source term \<open>f\<close>
  satisfies the equation in strong form exactly. Symbolically: the expression
  \<open>-\<partial>/\<partial>x(q(u) \<partial>u/\<partial>x) - \<partial>/\<partial>y(q(u) \<partial>u/\<partial>y) - f\<close>, built with \<open>diff\<close>, simplifies to
  \<open>0\<close>. As functions of the point \<open>(a, b)\<close>: \<open>u\<close> has the partial derivatives \<open>1\<close> and
  \<open>2\<close>, the two components \<open>q(u) \<cdot> 1\<close> and \<open>q(u) \<cdot> 2\<close> of the flux are differentiable in
  their own direction, and minus the sum of these derivatives is the value of \<open>f\<close>.
\<close>

theorem source_term_satisfies_pde:
  "simplify (sub f_derived f_sym) = Integer 0 \<and>
   (\<forall>a b.
      ((\<lambda>s. eval_expr (at_point s b) u_sym) has_real_derivative 1) (at a) \<and>
      ((\<lambda>t. eval_expr (at_point a t) u_sym) has_real_derivative 2) (at b) \<and>
      (\<exists>dx dy.
         ((\<lambda>s. q_at (eval_expr (at_point s b) u_sym) * 1) has_real_derivative dx) (at a) \<and>
         ((\<lambda>t. q_at (eval_expr (at_point a t) u_sym) * 2) has_real_derivative dy) (at b) \<and>
         - dx - dy = eval_expr (at_point a b) f_sym))"
proof -
  have "simplify (sub f_derived f_sym) = Integer 0"
    by code_simp
  then show ?thesis
    using u_dx u_dy flux_divergence by blast
qed

text \<open>
  Claim C2: the derived and simplified source term is the polynomial
  \<open>-10x - 20y - 10\<close>, and the code string emitted for it is
  \<open>-10*x[0] - 20*x[1] - 10\<close>, character for character.
\<close>

theorem source_term_literal:
  "f_sym = Add (Add (Mul (Integer (- 10)) (Var x_sym)) (Mul (Integer (- 20)) (Var y_sym)))
               (Integer (- 10)) \<and>
   f_code = ''-10*x[0] - 20*x[1] - 10''"
proof
  show "f_sym = Add (Add (Mul (Integer (- 10)) (Var x_sym)) (Mul (Integer (- 20)) (Var y_sym)))
                    (Integer (- 10))"
    by (rule f_sym_eq)
  show "f_code = ''-10*x[0] - 20*x[1] - 10''"
    by code_simp
qed

subsection \<open>The emitted text\<close>

lemma sublist_trans: "sublist a b \<Longrightarrow> sublist b c \<Longrightarrow> sublist a c"
  by (rule sublist_order.order_trans)















text \<open>The name of every atom of a term stands in the printed text, as a word of its
  own.\<close>

lemma not_word_chars:
  "CHR ''*'' \<notin> word_chars" "CHR '' '' \<notin> word_chars" "CHR ''('' \<notin> word_chars"
  "CHR '','' \<notin> word_chars" "CHR ''-'' \<notin> word_chars" "CHR ''+'' \<notin> word_chars"
  by (simp_all add: word_chars_def ident_chars_def)

lemma delimited_refl: "delimited n n"
  unfolding delimited_def by (intro exI[of _ "[]"]) simp

lemma delimited_sublist: "delimited n t \<Longrightarrow> sublist n t"
  by (auto simp: delimited_def sublist_def)

lemma delimited_wrap:
  assumes "delimited n f"
    and "pre = [] \<or> last pre \<notin> word_chars"
    and "post = [] \<or> hd post \<notin> insert (CHR ''('') word_chars"
  shows "delimited n (pre @ f @ post)"
proof -
  from assms(1) obtain ps ss where f: "f = ps @ n @ ss"
    and l: "ps = [] \<or> last ps \<notin> word_chars"
    and r: "ss = [] \<or> hd ss \<notin> insert (CHR ''('') word_chars"
    unfolding delimited_def by blast
  have eq: "pre @ f @ post = (pre @ ps) @ n @ (ss @ post)"
    by (simp add: f)
  have l': "pre @ ps = [] \<or> last (pre @ ps) \<notin> word_chars"
    using l assms(2) by (cases "ps = []") auto
  have r': "ss @ post = [] \<or> hd (ss @ post) \<notin> insert (CHR ''('') word_chars"
    using r assms(3) by (cases "ss = []") auto
  show ?thesis
    unfolding delimited_def eq using l' r' by blast
qed

lemma join_split:
  "f \<in> set fs \<Longrightarrow>
   \<exists>pre post. join sep fs = pre @ f @ post \<and>
     (pre = [] \<or> (\<exists>p. pre = p @ sep)) \<and> (post = [] \<or> (\<exists>r. post = sep @ r))"
proof (induction sep fs rule: join.induct)
  case (1 sep)
  then show ?case by simp
next
  case (2 sep s)
  then have "join sep [s] = [] @ f @ []" by simp
  then show ?case by blast
next
  case (3 sep s t ts)
  show ?case
  proof (cases "f = s")
    case True
    then have "join sep (s # t # ts) = [] @ f @ (sep @ join sep (t # ts))" by simp
    then show ?thesis by blast
  next
    case False
    with 3 obtain pre post where j: "join sep (t # ts) = pre @ f @ post"
      and l: "pre = [] \<or> (\<exists>p. pre = p @ sep)"
      and r: "post = [] \<or> (\<exists>r. post = sep @ r)"
      by auto
    have e: "join sep (s # t # ts) = (s @ sep @ pre) @ f @ post"
      by (simp add: j)
    from l have "\<exists>p. s @ sep @ pre = p @ sep"
    proof
      assume "pre = []"
      then have "s @ sep @ pre = s @ sep" by simp
      then show ?thesis by blast
    next
      assume "\<exists>p. pre = p @ sep"
      then obtain p where "pre = p @ sep" by blast
      then have "s @ sep @ pre = (s @ sep @ p) @ sep" by simp
      then show ?thesis by blast
    qed
    with e r show ?thesis by blast
  qed
qed

lemma delimited_join:
  assumes "delimited n f" and "f \<in> set fs"
    and "sep \<noteq> []" and "last sep \<notin> word_chars" and "hd sep \<notin> insert (CHR ''('') word_chars"
  shows "delimited n (join sep fs)"
proof -
  from join_split[OF assms(2), of sep] obtain pre post where j: "join sep fs = pre @ f @ post"
    and l: "pre = [] \<or> (\<exists>p. pre = p @ sep)"
    and r: "post = [] \<or> (\<exists>r. post = sep @ r)"
    by blast
  from l assms(3,4) have l': "pre = [] \<or> last pre \<notin> word_chars" by auto
  from r assms(3,5) have r': "post = [] \<or> hd post \<notin> insert (CHR ''('') word_chars" by auto
  show ?thesis
    unfolding j using assms(1) l' r' by (rule delimited_wrap)
qed

lemma delimited_print_factor: "delimited (atom_name (fst p)) (print_factor p)"
proof (cases "snd p = 1")
  case True
  then show ?thesis by (simp add: print_factor_def delimited_refl)
next
  case False
  have "delimited (atom_name (fst p))
          (''pow('' @ atom_name (fst p) @ ('', '' @ str_nat (snd p) @ '')''))"
    using delimited_refl by (rule delimited_wrap) (simp_all add: not_word_chars)
  with False show ?thesis by (simp add: print_factor_def)
qed

lemma delimited_print_monom:
  assumes "p \<in> set m"
  shows "delimited (atom_name (fst p)) (print_monom m)"
  unfolding print_monom_def
  using delimited_print_factor
proof (rule delimited_join)
  show "print_factor p \<in> set (map print_factor m)" using assms by simp
qed (simp_all add: not_word_chars)

lemma delimited_print_term:
  assumes "p \<in> set (fst t)"
  shows "delimited (atom_name (fst p)) (print_term t)"
proof -
  have m: "delimited (atom_name (fst p)) (print_monom (fst t))"
    using assms by (rule delimited_print_monom)
  from assms have ne: "fst t \<noteq> []" by auto
  have n: "delimited (atom_name (fst p)) (''-'' @ print_monom (fst t) @ [])"
    using m by (rule delimited_wrap) (simp_all add: not_word_chars)
  have g: "delimited (atom_name (fst p)) ((str_int (snd t) @ ''*'') @ print_monom (fst t) @ [])"
    using m by (rule delimited_wrap) (simp_all add: not_word_chars)
  consider "snd t = 1" | "snd t = - 1" | "snd t \<noteq> 1" "snd t \<noteq> - 1"
    by blast
  then show ?thesis
  proof cases
    case 1
    with m ne show ?thesis by (simp add: print_term_def)
  next
    case 2
    with n ne show ?thesis by (simp add: print_term_def)
  next
    case 3
    with g ne show ?thesis by (simp add: print_term_def)
  qed
qed

lemma delimited_stripped:
  assumes "delimited n t" and "n \<noteq> []" and "hd n \<noteq> CHR ''-''"
  shows "delimited n (stripped t)"
proof (cases "t \<noteq> [] \<and> hd t = CHR ''-''")
  case False
  with assms show ?thesis by (auto simp: stripped_def)
next
  case True
  from assms(1) obtain ps ss where t: "t = ps @ n @ ss"
    and l: "ps = [] \<or> last ps \<notin> word_chars"
    and r: "ss = [] \<or> hd ss \<notin> insert (CHR ''('') word_chars"
    unfolding delimited_def by blast
  show ?thesis
  proof (cases ps)
    case Nil
    with t assms True show ?thesis by (cases n) auto
  next
    case (Cons c cs)
    with t have tl: "tl t = cs @ n @ ss" by simp
    from l Cons have "cs = [] \<or> last cs \<notin> word_chars" by (cases "cs = []") auto
    with r have "delimited n (cs @ n @ ss)" unfolding delimited_def by blast
    with True tl show ?thesis by (simp add: stripped_def)
  qed
qed

lemma signed_stripped: "signed t = [if t \<noteq> [] \<and> hd t = CHR ''-'' then ''-'' else ''+'', stripped t]"
  by (simp add: signed_def)

lemma stripped_in_tl:
  assumes "u \<in> set ts"
  shows "stripped (print_term u) \<in> set (tl (concat (map (\<lambda>t. signed (print_term t)) ts)))"
proof (cases ts)
  case Nil
  with assms show ?thesis by simp
next
  case (Cons t rest)
  show ?thesis
  proof (cases "u = t")
    case True
    with Cons show ?thesis by (simp add: signed_stripped)
  next
    case False
    with assms Cons have "u \<in> set rest" by simp
    then have "stripped (print_term u) \<in> set (concat (map (\<lambda>t. signed (print_term t)) rest))"
      by (auto simp: signed_stripped)
    with Cons show ?thesis by (simp add: signed_stripped)
  qed
qed

lemma hd_signed_terms:
  assumes "ts \<noteq> []"
  shows "hd (concat (map (\<lambda>t. signed (print_term t)) ts)) \<in> {''-'', ''+''}"
  using assms by (cases ts) (simp_all add: signed_stripped)

lemma delimited_print_Add:
  assumes "u \<in> set ts" and "p \<in> set (fst u)"
    and "atom_name (fst p) \<noteq> []" and "hd (atom_name (fst p)) \<noteq> CHR ''-''"
  shows "delimited (atom_name (fst p)) (print_Add ts)"
proof -
  define l where "l = concat (map (\<lambda>t. signed (print_term t)) ts)"
  from assms(1) have "ts \<noteq> []" by auto
  then have hd: "hd l \<in> {''-'', ''+''}" unfolding l_def by (rule hd_signed_terms)
  have "delimited (atom_name (fst p)) (stripped (print_term u))"
    using delimited_print_term[OF assms(2)] assms(3,4) by (rule delimited_stripped)
  moreover have "stripped (print_term u) \<in> set (tl l)"
    unfolding l_def using assms(1) by (rule stripped_in_tl)
  ultimately have "delimited (atom_name (fst p)) (join '' '' (tl l))"
    by (rule delimited_join) (simp_all add: not_word_chars)
  then have "delimited (atom_name (fst p))
               ((if hd l = ''+'' then [] else hd l) @ join '' '' (tl l) @ [])"
    using hd by (intro delimited_wrap) (auto simp: not_word_chars)
  moreover have "print_Add ts = (if hd l = ''+'' then [] else hd l) @ join '' '' (tl l)"
    by (simp add: print_Add_def l_def Let_def)
  ultimately show ?thesis by simp
qed

lemma delimited_cprint:
  assumes "u \<in> set ts" and "p \<in> set (fst u)"
    and "atom_name (fst p) \<noteq> []" and "hd (atom_name (fst p)) \<noteq> CHR ''-''"
  shows "delimited (atom_name (fst p)) (cprint ts)"
proof (cases ts rule: cprint.cases)
  case 1
  with assms show ?thesis by simp
next
  case (2 t)
  with assms delimited_print_term[of p t] show ?thesis by simp
next
  case (3 t v vs)
  with delimited_print_Add[OF assms] show ?thesis by simp
qed

text \<open>A name that stands as a word of its own is one of the words of the text.\<close>

lemma words_acc_run:
  "set n \<subseteq> word_chars \<Longrightarrow> words_acc acc (n @ ss) = words_acc (acc @ n) ss"
  by (induction n arbitrary: acc) simp_all

lemma words_acc_flush:
  assumes "acc \<noteq> []" and "ss = [] \<or> hd ss \<notin> insert (CHR ''('') word_chars"
  shows "acc \<in> set (words_acc acc ss)"
  using assms by (cases ss) auto

lemma words_acc_delimited:
  assumes "n \<noteq> []" and "set n \<subseteq> word_chars"
    and "ss = [] \<or> hd ss \<notin> insert (CHR ''('') word_chars"
  shows "(ps = [] \<longrightarrow> acc = []) \<Longrightarrow> (ps \<noteq> [] \<longrightarrow> last ps \<notin> word_chars) \<Longrightarrow>
         n \<in> set (words_acc acc (ps @ n @ ss))"
proof (induction ps arbitrary: acc)
  case Nil
  then have "words_acc acc ([] @ n @ ss) = words_acc n ss"
    using words_acc_run[OF assms(2), of "[]" ss] by simp
  with words_acc_flush[OF assms(1,3)] show ?case by simp
next
  case (Cons c cs)
  show ?case
  proof (cases "cs = []")
    case True
    with Cons.prems have c: "c \<notin> word_chars" by simp
    have "n \<in> set (words_acc [] ([] @ n @ ss))"
      by (rule Cons.IH[unfolded True]) simp_all
    with c True show ?thesis by simp
  next
    case False
    with Cons.prems have "last cs \<notin> word_chars" by simp
    with False have "\<And>acc'. n \<in> set (words_acc acc' (cs @ n @ ss))"
      by (intro Cons.IH) simp_all
    then show ?thesis by simp
  qed
qed

lemma delimited_word:
  assumes "delimited n t" and "n \<noteq> []" and "set n \<subseteq> word_chars"
  shows "n \<in> set (words_acc [] t)"
proof -
  from assms(1) obtain ps ss where t: "t = ps @ n @ ss"
    and l: "ps = [] \<or> last ps \<notin> word_chars"
    and r: "ss = [] \<or> hd ss \<notin> insert (CHR ''('') word_chars"
    unfolding delimited_def by blast
  show ?thesis
    unfolding t using assms(2,3) r by (rule words_acc_delimited) (use l in auto)
qed


text \<open>The atoms of a sum do not depend on the order of its terms.\<close>

lemma poly_atoms_iff: "a \<in> set (poly_atoms p) \<longleftrightarrow> (\<exists>u\<in>set p. \<exists>f\<in>set (fst u). fst f = a)"
  by (auto simp: poly_atoms_def)

lemma poly_atoms_cong: "set ts = set p \<Longrightarrow> set (poly_atoms ts) = set (poly_atoms p)"
  by (auto simp: poly_atoms_iff)

lemma collected_symbols_iff:
  "s \<in> set (collected_symbols e) \<longleftrightarrow> SymAtom s \<in> set (poly_atoms (canon e))"
  by (auto simp: collected_symbols_def split: atom.splits)

lemma not_ident_chars:
  "CHR ''-'' \<notin> ident_chars" "CHR ''['' \<notin> ident_chars" "CHR ''('' \<notin> ident_chars"
  by (simp_all add: ident_chars_def)

lemma digits_not_first: "c \<in> set ''0123456789'' \<Longrightarrow> c \<notin> first_chars"
  by (auto simp: first_chars_def)

lemma bare_name_facts:
  assumes "bare_name n"
  shows "n \<noteq> []" and "hd n \<noteq> CHR ''-''" and "set n \<subseteq> word_chars" and "\<not> is_number n"
    and "n \<notin> set [''x[0]'', ''x[1]'', ''pow('']"
proof -
  from assms have ne: "n \<noteq> []" and h: "hd n \<in> first_chars" and sub: "set n \<subseteq> ident_chars"
    by (simp_all add: bare_name_def)
  show "n \<noteq> []" by (rule ne)
  from ne have hn: "hd n \<in> set n" by simp
  with sub have "hd n \<in> ident_chars" by blast
  with not_ident_chars(1) show "hd n \<noteq> CHR ''-''" by metis
  from sub show "set n \<subseteq> word_chars" by (auto simp: word_chars_def)
  show "\<not> is_number n"
  proof
    assume "is_number n"
    with hn have "hd n \<in> set ''0123456789''" unfolding is_number_def by blast
    with h digits_not_first show False by blast
  qed
  show "n \<notin> set [''x[0]'', ''x[1]'', ''pow('']"
  proof
    assume "n \<in> set [''x[0]'', ''x[1]'', ''pow('']"
    then have "CHR ''['' \<in> set n \<or> CHR ''('' \<in> set n" by auto
    with sub not_ident_chars(2,3) show False by blast
  qed
qed








lemma ccode_symbol: "name v \<notin> set reserved_words \<Longrightarrow> ccode (Var v) = name v"
  by (simp add: ccode_def print_term_def print_monom_def print_factor_def)

lemma names_in_any_order:
  assumes "\<forall>s\<in>set (collected_symbols e). bare_name (name s) \<and> name s \<notin> set reserved_words"
    and "set ts = set (canon e)"
    and "s \<in> set (collected_symbols e)"
  shows "sublist (name s) (cprint ts) \<and>
         (name s \<notin> set known \<longrightarrow> \<not> expression_accepts known (cprint ts))"
proof -
  from assms(1,3) have bare: "bare_name (name s)" and nr: "name s \<notin> set reserved_words"
    by blast+
  from assms(3) have "SymAtom s \<in> set (poly_atoms (canon e))"
    by (simp add: collected_symbols_iff)
  with poly_atoms_cong[OF assms(2)] have "SymAtom s \<in> set (poly_atoms ts)"
    by simp
  then obtain u f where
    u: "u \<in> set ts" and f: "f \<in> set (fst u)" and a: "fst f = SymAtom s"
    unfolding poly_atoms_iff by blast
  have "delimited (atom_name (fst f)) (cprint ts)"
    using u f by (rule delimited_cprint) (simp_all add: a nr bare_name_facts[OF bare])
  then have d: "delimited (name s) (cprint ts)" by (simp add: a nr)
  then have w: "name s \<in> set (words_acc [] (cprint ts))"
    by (rule delimited_word) (simp_all add: bare_name_facts[OF bare])
  have "\<not> expression_accepts known (cprint ts)" if "name s \<notin> set known"
  proof
    assume "expression_accepts known (cprint ts)"
    with w have "is_number (name s) \<or> name s \<in> set [''x[0]'', ''x[1]'', ''pow(''] \<or>
                 name s \<in> set known"
      unfolding expression_accepts_def list_all_iff by blast
    with bare_name_facts(4,5)[OF bare] that show False by blast
  qed
  with d show ?thesis by (simp add: delimited_sublist)
qed

text \<open>
  Claim C10, as the code has it: the emitter does not translate coordinate names. A
  symbol is emitted under its own name (only a reserved word of C gets an underscore
  appended), so \<open>x[0]\<close> and \<open>x[1]\<close> in the emitted strings are the names the two symbols
  were created with. For every sum of monomials whose symbols have bare names that are
  not reserved words, each name stands unchanged in the emitted string, and the string
  is not accepted by the evaluator of \<open>Expression\<close> strings as soon as one of the names
  is not a name the evaluator knows by itself; this holds in whatever order the terms
  are printed. The string is not invalid for every name, though: the evaluator knows
  some names, \<open>pi\<close> among them.
\<close>

theorem emitter_keeps_names:
  assumes "sum_form e"
    and "\<forall>s\<in>set (collected_symbols e). bare_name (name s) \<and> name s \<notin> set reserved_words"
  shows "(\<forall>v. name v \<notin> set reserved_words \<longrightarrow> ccode (Var v) = name v) \<and>
         (\<forall>s\<in>set (collected_symbols e).
            sublist (name s) (ccode e) \<and>
            (name s \<notin> set known \<longrightarrow> \<not> expression_accepts known (ccode e))) \<and>
         (\<forall>ts. set ts = set (canon e) \<longrightarrow>
            (\<forall>s\<in>set (collected_symbols e).
               sublist (name s) (cprint ts) \<and>
               (name s \<notin> set known \<longrightarrow> \<not> expression_accepts known (cprint ts))))"
proof (intro conjI allI impI ballI)
  fix v assume "name v \<notin> set reserved_words"
  then show "ccode (Var v) = name v" by (rule ccode_symbol)
next
  fix s assume s: "s \<in> set (collected_symbols e)"
  from names_in_any_order[OF assms(2) refl s, of known]
  show "sublist (name s) (ccode e)" by (simp add: ccode_def)
next
  fix s assume s: "s \<in> set (collected_symbols e)" and k: "name s \<notin> set known"
  from names_in_any_order[OF assms(2) refl s, of known] k
  show "\<not> expression_accepts known (ccode e)" by (simp add: ccode_def)
next
  fix ts s assume ts: "set ts = set (canon e)" and s: "s \<in> set (collected_symbols e)"
  from names_in_any_order[OF assms(2) ts s, of known]
  show "sublist (name s) (cprint ts)" by simp
next
  fix ts s assume ts: "set ts = set (canon e)" and s: "s \<in> set (collected_symbols e)"
    and k: "name s \<notin> set known"
  from names_in_any_order[OF assms(2) ts s, of known] k
  show "\<not> expression_accepts known (cprint ts)" by simp
qed

theorem emitter_keeps_names_witness:
  "sum_form (Add (Add (Integer 1) (Var (Symbol ''x''))) (Mul (Integer 2) (Var (Symbol ''y'')))) \<and>
   ccode (Var (Symbol ''x'')) = ''x'' \<and>
   ccode (Add (Add (Integer 1) (Var (Symbol ''x''))) (Mul (Integer 2) (Var (Symbol ''y'')))) =
     ''x + 2*y + 1'' \<and>
   sublist ''x'' (ccode (Add (Add (Integer 1) (Var (Symbol ''x''))) (Mul (Integer 2) (Var (Symbol ''y''))))) \<and>
   sublist ''y'' (ccode (Add (Add (Integer 1) (Var (Symbol ''x''))) (Mul (Integer 2) (Var (Symbol ''y''))))) \<and>
   \<not> expression_accepts [''pi'']
       (ccode (Add (Add (Integer 1) (Var (Symbol ''x''))) (Mul (Integer 2) (Var (Symbol ''y'')))))"
proof -
  let ?e = "Add (Add (Integer 1) (Var (Symbol ''x''))) (Mul (Integer 2) (Var (Symbol ''y'')))"
  have sf: "sum_form ?e" by simp
  have cs: "collected_symbols ?e = [Symbol ''x'', Symbol ''y'']"
    by code_simp
  have bn: "bare_name ''x''" "bare_name ''y''"
    by code_simp+
  have nr: "''x'' \<notin> set reserved_words" "''y'' \<notin> set reserved_words"
    by code_simp+
  have h: "\<forall>s\<in>set (collected_symbols ?e). bare_name (name s) \<and> name s \<notin> set reserved_words"
    using bn nr by (simp add: cs)
  have c: "ccode ?e = ''x + 2*y + 1''"
    by code_simp
  from emitter_keeps_names[OF sf h, of "[''pi'']"] nr(1) have
    "ccode (Var (Symbol ''x'')) = ''x''"
    "sublist ''x'' (ccode ?e)" "sublist ''y'' (ccode ?e)"
    "\<not> expression_accepts [''pi''] (ccode ?e)"
    by (simp_all add: cs)
  with sf c show ?thesis by blast
qed

text \<open>A symbol with the bare name \<open>pi\<close>: the emitted string is \<open>2*pi + 1\<close>, which an
  evaluator that knows \<open>pi\<close> accepts.\<close>

theorem name_pi_is_accepted:
  "bare_name ''pi'' \<and> ''pi'' \<notin> set reserved_words \<and>
   ccode (Add (Mul (Integer 2) (Var (Symbol ''pi''))) (Integer 1)) = ''2*pi + 1'' \<and>
   expression_accepts [''pi''] (ccode (Add (Mul (Integer 2) (Var (Symbol ''pi''))) (Integer 1)))"
  by code_simp

text \<open>Both expressions the notebook emits are sums of monomials, and both emitted
  strings are accepted, whatever names the evaluator knows.\<close>

lemma notebook_strings_accepted:
  "sum_form u_sym \<and> sum_form f_sym \<and>
   expression_accepts known u_code \<and> expression_accepts known f_code"
proof -
  have "u_code = ''x[0] + 2*x[1] + 1''" "f_code = ''-10*x[0] - 20*x[1] - 10''"
    by code_simp+
  moreover have "words_acc [] ''x[0] + 2*x[1] + 1'' = [''x[0]'', ''2'', ''x[1]'', ''1'']"
    by code_simp
  moreover have "words_acc [] ''-10*x[0] - 20*x[1] - 10'' = [''10'', ''x[0]'', ''20'', ''x[1]'', ''10'']"
    by code_simp
  moreover have "is_number ''1''" "is_number ''2''" "is_number ''10''" "is_number ''20''"
    by code_simp+
  moreover have "sum_form u_sym" "sum_form f_sym"
    by code_simp+
  ultimately show ?thesis
    by (simp add: expression_accepts_def)
qed

subsection \<open>The boundary predicate\<close>

text \<open>
  Claim C7, as the code has it: for every point and every value of the on-boundary flag,
  the boundary predicate returns the flag; the point is not looked at.
\<close>

theorem boundary_returns_flag: "boundary p on_boundary = on_boundary"
  by (simp add: boundary_def)

text \<open>The predicate is not constantly true: at an interior point, with the flag false,
  it returns false.\<close>

theorem boundary_false_off_boundary: "\<not> boundary (1 / 2 :: real, 1 / 2 :: real) False"
  by (simp add: boundary_def)

subsection \<open>The error printers\<close>

lemma np_subtract_same_length:
  "length a = length b \<Longrightarrow> np_subtract a b = Inr (map (\<lambda>i. a ! i - b ! i) [0..<length a])"
  by (auto simp: np_subtract_def intro!: nth_equalityI)

lemma np_max_Max:
  assumes "xs \<noteq> []"
  shows "np_max xs = Inr (Max (set xs))"
proof (cases xs)
  case Nil
  with assms show ?thesis by simp
next
  case (Cons a list)
  have "Max (set (a # list)) = fold max list a"
    by (rule Max.set_eq_fold)
  with Cons show ?thesis by simp
qed

lemma print_errors_loop_enumerate:
  "i + length xs \<le> length u0 \<Longrightarrow> i + length xs \<le> length u1 \<Longrightarrow>
   print_errors_loop i xs u0 u1 g =
     Inr (g\<lparr>stdout := stdout g @
            map (\<lambda>(k, x). VertexErrorLine k (fst x) (snd x) (u0 ! k - u1 ! k)) (enumerate i xs)\<rparr>)"
proof (induction xs arbitrary: i g)
  case Nil
  then show ?case by simp
next
  case (Cons x xs)
  then show ?case by (simp add: py_print_def)
qed

lemma np_subtract_differing:
  "length a \<noteq> length b \<Longrightarrow>
   np_subtract a b =
     (if length a = 1 then Inr (map (\<lambda>y. hd a - y) b)
      else if length b = 1 then Inr (map (\<lambda>x. x - hd b) a)
      else Inl ValueError)"
  by (simp add: np_subtract_def)

text \<open>
  Claim C6: when the two samples hold one value for each vertex of the mesh (and the mesh
  has a vertex), \<open>print_max_error\<close> prints the maximum over all vertices of the signed
  difference, exact value minus computed value, and \<open>print_errors\<close> prints one line for
  each vertex with its index, its coordinates and its signed difference. Nothing else
  changes: every variable of the kernel is as before, and the output is the former
  output followed by these lines.
\<close>

theorem error_evaluator_report:
  fixes ext :: "('mesh, 'space, 'fn, 'a::{minus,linorder}) fenics"
    and g :: "('mesh, 'space, 'fn, 'a) globals"
  defines "u0 \<equiv> compute_vertex_values ext (interpolate ext (u_D g) (V_var g))"
    and "u1 \<equiv> compute_vertex_values ext (u_var g)"
    and "coor \<equiv> coordinates ext (V_var g)"
  assumes "length u0 = length coor" and "length u1 = length coor" and "coor \<noteq> []"
  shows "print_max_error ext g =
           Inr (g\<lparr>stdout := stdout g @
                  [MaxErrorLine (Max ((\<lambda>i. u0 ! i - u1 ! i) ` {..<length coor}))]\<rparr>) \<and>
         print_errors ext g =
           Inr (g\<lparr>stdout := stdout g @
                  map (\<lambda>(i, x). VertexErrorLine i (fst x) (snd x) (u0 ! i - u1 ! i))
                      (enumerate 0 coor)\<rparr>)"
proof
  have len: "length u0 = length u1" using assms by simp
  have ne: "map (\<lambda>i. u0 ! i - u1 ! i) [0..<length u0] \<noteq> []" using assms by simp
  have "set (map (\<lambda>i. u0 ! i - u1 ! i) [0..<length u0]) = (\<lambda>i. u0 ! i - u1 ! i) ` {..<length coor}"
    using assms by (simp add: lessThan_atLeast0)
  with np_max_Max[OF ne]
  have "np_max (map (\<lambda>i. u0 ! i - u1 ! i) [0..<length u0]) =
          Inr (Max ((\<lambda>i. u0 ! i - u1 ! i) ` {..<length coor}))"
    by simp
  then show "print_max_error ext g =
           Inr (g\<lparr>stdout := stdout g @
                  [MaxErrorLine (Max ((\<lambda>i. u0 ! i - u1 ! i) ` {..<length coor}))]\<rparr>)"
    using np_subtract_same_length[OF len]
    by (simp add: print_max_error_def u0_def u1_def and_then_def py_print_def)
  show "print_errors ext g =
           Inr (g\<lparr>stdout := stdout g @
                  map (\<lambda>(i, x). VertexErrorLine i (fst x) (snd x) (u0 ! i - u1 ! i))
                      (enumerate 0 coor)\<rparr>)"
    using assms print_errors_loop_enumerate[of 0 coor u0 u1 g]
    by (simp add: print_errors_def)
qed

theorem error_evaluator_report_witness:
  "print_max_error (sample_fenics [1, 2, 3]) (sample_globals [1, 2, 5 / 2]) =
     Inr ((sample_globals [1, 2, 5 / 2])\<lparr>stdout := [MaxErrorLine (1 / 2)]\<rparr>) \<and>
   print_errors (sample_fenics [1, 2, 3]) (sample_globals [1, 2, 5 / 2]) =
     Inr ((sample_globals [1, 2, 5 / 2])
            \<lparr>stdout := [VertexErrorLine 0 0 0 0, VertexErrorLine 1 1 0 0,
                        VertexErrorLine 2 0 1 (1 / 2)]\<rparr>)"
proof -
  have img: "(MAX i\<in>{..<Suc (Suc (Suc 0))}. [1, 2, 3 :: real] ! i - [1, 2, 5 / 2] ! i) = 1 / 2"
    by (simp add: lessThan_Suc)
  have en: "enumerate 0 [(0 :: real, 0 :: real), (1, 0), (0, 1)] = [(0, (0, 0)), (1, (1, 0)), (2, (0, 1))]"
    by (simp add: enumerate_eq_zip upt_rec)
  show ?thesis
    using error_evaluator_report[of "sample_fenics [1, 2, 3]" "sample_globals [1, 2, 5 / 2]"]
    by (simp add: sample_fenics_def sample_globals_def img en)
qed





subsection \<open>The variable \<open>n\<close>\<close>

text \<open>
  Claim C9: the run does not depend on the value assigned to \<open>n\<close>. For any two values,
  the two runs raise the same error or end in states that agree on every variable other
  than \<open>n\<close> itself and on the whole output (the emitted strings, the mesh plot, the
  reported errors); the finite element functions they hold are the results of the same
  calls of \<open>solve\<close>. The mesh is built with 8 by 8 subdivisions whatever \<open>n\<close> is.
\<close>

theorem n_never_read:
  "map_sum id (\<lambda>r. r\<lparr>n_var := 0\<rparr>) (run_all ext n g) =
   map_sum id (\<lambda>r. r\<lparr>n_var := 0\<rparr>) (run_all ext n' g) \<and>
   mesh_var (cell_mesh ext n g) = UnitSquareMesh ext 8 8 \<and>
   notebook ext g = run_all ext 16 g"
  by (auto simp: notebook_def run_all_def cell_solve_tol_def cell_solve_def cell_bc_def cell_mesh_def
        cell_emit_def print_max_error_def and_then_def py_print_def Let_def
      split: sum.splits)



end
